theory Spec2Isabelle
  imports Complex_Main
begin

section \<open>Data model of the scaler\<close>

text \<open>
  The development follows \<^verbatim>\<open>assemblyline_core/scaler/scaler_server.py\<close>.
  Python integers are \<open>int\<close>. Python floats (pressure, thresholds, time stamps, CPU
  shares) are read as the real numbers they stand for, and sums, products and differences
  of floats as exact, with two exceptions where the rounding to doubles decides what the
  code does: the division of two integers in \<^verbatim>\<open>update\<close> raises and rounds to zero as the
  rounded quotient does, and the loop of phase 3 of the allocator is defined for any
  subtraction, the rounded one included. Every exception the modelled code can raise is a
  value of \<open>error\<close>; a function that can raise returns \<open>error + 'a\<close>.
\<close>

datatype error =
  ZeroDivisionError | ValueError | OverflowError | KeyError | TypeError | AttributeError

text \<open>
  \<^verbatim>\<open>DockerConfig\<close>: the fields the scaler reads (\<^verbatim>\<open>cpu_cores\<close>, \<^verbatim>\<open>ram_mb\<close>) and the
  image, which stands for the rest of the container specification in comparisons.
\<close>

record docker_config =
  cpu_cores :: real
  ram_mb :: int
  image_ref :: string

text \<open>
  \<^verbatim>\<open>_max_instances\<close> is an integer or \<^verbatim>\<open>float('inf')\<close>.
\<close>

datatype cap = Cap int | Unbounded

text \<open>
  \<^verbatim>\<open>class ServiceProfile\<close>. The attributes \<^verbatim>\<open>_min_instances\<close> and \<^verbatim>\<open>_max_instances\<close>
  are the fields \<open>u_min_instances\<close> and \<open>u_max_instances\<close>. The queue handle is the name
  of the queue, or \<open>None\<close> when the profile was built without one.
\<close>

record profile =
  name :: string
  queue :: "string option"
  container_config :: docker_config
  target_duty_cycle :: real
  shutdown_seconds :: int
  config_hash :: int
  min_instances :: int
  u_min_instances :: int
  u_max_instances :: cap
  desired_instances :: int
  running_instances :: int
  pressure :: real
  growth_threshold :: real
  shrink_threshold :: real
  leak_rate :: real
  backlog :: int
  queue_length :: int
  duty_cycle :: real
  last_update :: real

text \<open>
  \<^verbatim>\<open>ServiceProfile.__init__\<close>. The argument \<open>max_arg\<close> is \<^verbatim>\<open>max_instances\<close>
  (\<open>None\<close> or an integer; \<^verbatim>\<open>None\<close> and \<^verbatim>\<open>0\<close> are both falsy), \<open>shrink\<close> is
  \<^verbatim>\<open>None\<close> or a number.
\<close>

definition ServiceProfile ::
  "string \<Rightarrow> docker_config \<Rightarrow> int \<Rightarrow> int \<Rightarrow> int option \<Rightarrow> real \<Rightarrow> real option \<Rightarrow> int
     \<Rightarrow> string option \<Rightarrow> int \<Rightarrow> profile" where
  "ServiceProfile nm cc chash min_arg max_arg growth shrink backlog_arg q shutdown =
     \<lparr> name = nm,
       queue = q,
       container_config = cc,
       target_duty_cycle = 9 / 10,
       shutdown_seconds = shutdown,
       config_hash = chash,
       min_instances = max 0 min_arg,
       u_min_instances = max 0 min_arg,
       u_max_instances =
         (case max_arg of None \<Rightarrow> Unbounded
          | Some m \<Rightarrow> if m = 0 then Unbounded else Cap (max 0 m)),
       desired_instances = 0,
       running_instances = 0,
       pressure = 0,
       growth_threshold = \<bar>growth\<bar>,
       shrink_threshold =
         (case shrink of None \<Rightarrow> - \<bar>growth\<bar> / 2 | Some s \<Rightarrow> - \<bar>s\<bar>),
       leak_rate = 1 / 10,
       backlog = backlog_arg,
       queue_length = 0,
       duty_cycle = 0,
       last_update = 0 \<rparr>"

definition cpu :: "profile \<Rightarrow> real" where
  "cpu p = cpu_cores (container_config p)"

definition ram :: "profile \<Rightarrow> int" where
  "ram p = ram_mb (container_config p)"

text \<open>The property \<^verbatim>\<open>max_instances\<close>: \<^verbatim>\<open>min(self._max_instances, self.running_instances + 2)\<close>.\<close>

definition max_instances :: "profile \<Rightarrow> int" where
  "max_instances p =
     (case u_max_instances p of
        Unbounded \<Rightarrow> running_instances p + 2
      | Cap m \<Rightarrow> min m (running_instances p + 2))"

text \<open>\<^verbatim>\<open>math.copysign(x, y)\<close> on reals: the magnitude of \<open>x\<close> with the sign of \<open>y\<close>.\<close>

definition copysign :: "real \<Rightarrow> real \<Rightarrow> real" where
  "copysign x y = (if y < 0 then - \<bar>x\<bar> else \<bar>x\<bar>)"

section \<open>ServiceProfile.update\<close>

text \<open>
  \<^verbatim>\<open>ServiceProfile.update(delta, instances, backlog, duty_cycle)\<close> is taken apart along the
  blocks of its body, in the source's order; each block is a function on the profile.

  The first block stores the observations (with the reading \<open>now\<close> of \<^verbatim>\<open>time.time()\<close>),
  sets \<^verbatim>\<open>min_instances\<close> to \<^verbatim>\<open>max(self._min_instances, int(bool(backlog)))\<close> and clamps
  \<^verbatim>\<open>desired_instances\<close> with \<^verbatim>\<open>max(self.min_instances, min(self.max_instances, ...))\<close>.
\<close>

definition observe :: "real \<Rightarrow> int \<Rightarrow> int \<Rightarrow> real \<Rightarrow> profile \<Rightarrow> profile" where
  "observe now instances backlog_in duty_in self =
     (let s1 = self\<lparr> last_update := now, running_instances := instances,
                     queue_length := backlog_in, duty_cycle := duty_in \<rparr>;
          s2 = s1\<lparr> min_instances :=
                     max (u_min_instances s1) (if backlog_in \<noteq> 0 then 1 else 0) \<rparr>
      in s2\<lparr> desired_instances :=
                max (min_instances s2) (min (max_instances s2) (desired_instances s2)) \<rparr>)"

text \<open>
  The division of two Python integers, \<^verbatim>\<open>a / b\<close>: the quotient rounded to the nearest
  double. It raises \<^verbatim>\<open>ZeroDivisionError\<close> for a zero divisor and \<^verbatim>\<open>OverflowError\<close>
  (\<^verbatim>\<open>integer division result too large for a float\<close>) when the rounded quotient is beyond
  the largest double, that is when its magnitude is at least \<open>2 ^ 1024 - 2 ^ 970\<close>, half
  a unit in the last place above the largest double. A quotient of magnitude at most
  \<open>1 / 2 ^ 1075\<close>, half the smallest double above zero, rounds to zero. In between, the
  double is read as the quotient itself.
\<close>

definition double_overflow :: real where
  "double_overflow = 2 ^ 1024 - 2 ^ 970"

definition double_underflow :: real where
  "double_underflow = 1 / 2 ^ 1075"

definition true_divide :: "int \<Rightarrow> int \<Rightarrow> error + real" where
  "true_divide a b =
     (if b = 0 then Inl ZeroDivisionError
      else if double_overflow \<le> abs (real_of_int a / real_of_int b) then Inl OverflowError
      else if abs (real_of_int a / real_of_int b) \<le> double_underflow then Inr 0
      else Inr (real_of_int a / real_of_int b))"

text \<open>\<^verbatim>\<open>math.sqrt\<close>: \<^verbatim>\<open>ValueError\<close> (\<^verbatim>\<open>math domain error\<close>) below zero.\<close>

definition math_sqrt :: "real \<Rightarrow> error + real" where
  "math_sqrt x = (if x < 0 then Inl ValueError else Inr (sqrt x))"

text \<open>
  \<^verbatim>\<open>self.pressure += delta * math.sqrt(backlog/self.backlog)\<close>, with the integers
  \<^verbatim>\<open>backlog\<close> (the length of the queue) and \<^verbatim>\<open>self.backlog\<close> and the float \<^verbatim>\<open>delta\<close>: the
  division and the square root can raise; the product and the sum of floats cannot.
\<close>

definition backlog_pressure :: "real \<Rightarrow> int \<Rightarrow> profile \<Rightarrow> error + profile" where
  "backlog_pressure delta backlog_in self =
     (case true_divide backlog_in (backlog self) of
        Inl e \<Rightarrow> Inl e
      | Inr q \<Rightarrow>
          (case math_sqrt q of
             Inl e \<Rightarrow> Inl e
           | Inr r \<Rightarrow> Inr (self\<lparr> pressure := pressure self + delta * r \<rparr>)))"

text \<open>
  \<^verbatim>\<open>self.pressure -= delta * (self.target_duty_cycle - duty_cycle)/self.target_duty_cycle\<close>:
  the division raises \<^verbatim>\<open>ZeroDivisionError\<close> on zero.
\<close>

definition duty_pressure :: "real \<Rightarrow> real \<Rightarrow> profile \<Rightarrow> error + profile" where
  "duty_pressure delta duty_in self =
     (if target_duty_cycle self = 0 then Inl ZeroDivisionError
      else Inr (self\<lparr> pressure := pressure self
                  - delta * (target_duty_cycle self - duty_in) / target_duty_cycle self \<rparr>))"

text \<open>
  \<^verbatim>\<open>leak = min(self.leak_rate * delta, abs(self.pressure))\<close>, then
  \<^verbatim>\<open>self.pressure = math.copysign(abs(self.pressure) - leak, self.pressure)\<close>. On doubles
  the product and the difference are rounded: the difference is still exactly 0 when the
  leak is \<^verbatim>\<open>abs(self.pressure)\<close>, and between 0 and \<^verbatim>\<open>abs(self.pressure)\<close> when the leak is
  not negative.
\<close>

definition leak_pressure :: "real \<Rightarrow> profile \<Rightarrow> profile" where
  "leak_pressure delta self =
     (let leak = min (leak_rate self * delta) \<bar>pressure self\<bar>
      in self\<lparr> pressure := copysign (\<bar>pressure self\<bar> - leak) (pressure self) \<rparr>)"

text \<open>
  \<^verbatim>\<open>if self.desired_instances == self.min_instances: self.pressure = max(0.0, self.pressure)\<close>.
\<close>

definition floor_pressure :: "profile \<Rightarrow> profile" where
  "floor_pressure self =
     (if desired_instances self = min_instances self
      then self\<lparr> pressure := max 0 (pressure self) \<rparr> else self)"

text \<open>The block under \<^verbatim>\<open>if self.pressure >= self.growth_threshold\<close>.\<close>

definition grow_step :: "profile \<Rightarrow> profile" where
  "grow_step self =
     (if pressure self \<ge> growth_threshold self
      then self\<lparr> desired_instances := min (max_instances self) (desired_instances self + 1),
                 pressure := 0 \<rparr>
      else self)"

text \<open>The block under \<^verbatim>\<open>if self.pressure <= self.shrink_threshold\<close>.\<close>

definition shrink_step :: "profile \<Rightarrow> profile" where
  "shrink_step self =
     (if pressure self \<le> shrink_threshold self
      then self\<lparr> desired_instances := max (min_instances self) (desired_instances self - 1),
                 pressure := 0 \<rparr>
      else self)"

text \<open>The whole method: the blocks in order; an exception ends the call.\<close>

definition update :: "real \<Rightarrow> real \<Rightarrow> int \<Rightarrow> int \<Rightarrow> real \<Rightarrow> profile \<Rightarrow> error + profile" where
  "update now delta instances backlog_in duty_in self =
     (case backlog_pressure delta backlog_in (observe now instances backlog_in duty_in self) of
        Inl e \<Rightarrow> Inl e
      | Inr s4 \<Rightarrow>
          (case duty_pressure delta duty_in s4 of
             Inl e \<Rightarrow> Inl e
           | Inr s5 \<Rightarrow>
               Inr (shrink_step (grow_step (floor_pressure (leak_pressure delta s5))))))"

text \<open>
  A call of \<open>update\<close> as data, and a sequence of calls: the first exception ends the run.
\<close>

record update_call =
  at_time :: real
  call_delta :: real
  call_instances :: int
  call_backlog :: int
  call_duty_cycle :: real

definition apply_update :: "update_call \<Rightarrow> profile \<Rightarrow> error + profile" where
  "apply_update c p =
     update (at_time c) (call_delta c) (call_instances c) (call_backlog c) (call_duty_cycle c) p"

fun updates :: "update_call list \<Rightarrow> profile \<Rightarrow> error + profile" where
  "updates [] p = Inr p"
| "updates (c # cs) p =
     (case apply_update c p of Inl e \<Rightarrow> Inl e | Inr p' \<Rightarrow> updates cs p')"

section \<open>The error window\<close>

definition MAXIMUM_SERVICE_ERRORS :: nat where
  "MAXIMUM_SERVICE_ERRORS = 5"

definition ERROR_EXPIRY_TIME :: real where
  "ERROR_EXPIRY_TIME = 60 * 60"

text \<open>
  A call of \<^verbatim>\<open>datastore.service_delta.update(name, [(UPDATE_SET, 'enabled', value)])\<close>.
\<close>

datatype ds_update = SetEnabled string bool

text \<open>
  The part of \<^verbatim>\<open>ScalerServer\<close> that \<^verbatim>\<open>handle_service_error\<close> touches: the dictionary
  \<^verbatim>\<open>error_count\<close> and the updates sent to the datastore so far.
\<close>

record error_tracker =
  error_count :: "string \<rightharpoonup> real list"
  datastore_updates :: "ds_update list"

text \<open>
  \<^verbatim>\<open>ScalerServer.__init__\<close> sets \<^verbatim>\<open>self.error_count: Dict[str, List[float]] = {}\<close>, a plain
  dictionary; no other statement of the module stores a key in it.
\<close>

definition init_error_tracker :: error_tracker where
  "init_error_tracker = \<lparr> error_count = Map.empty, datastore_updates = [] \<rparr>"

text \<open>
  \<^verbatim>\<open>handle_service_error(service_name)\<close>, with one reading \<open>now\<close> of the clock for the
  call. The first statement, \<^verbatim>\<open>self.error_count[service_name].append(time.time())\<close>,
  subscripts the dictionary and raises \<^verbatim>\<open>KeyError\<close> for a missing key, before
  anything is changed.
\<close>

definition handle_service_error :: "real \<Rightarrow> string \<Rightarrow> error_tracker \<Rightarrow> error + error_tracker" where
  "handle_service_error now service_name st =
     (case error_count st service_name of
        None \<Rightarrow> Inl KeyError
      | Some ts \<Rightarrow>
          let appended = ts @ [now];
              retained = filter (\<lambda>t. t \<ge> now - ERROR_EXPIRY_TIME) appended;
              st1 = st\<lparr> error_count := (error_count st)(service_name \<mapsto> retained) \<rparr>
          in if length retained \<ge> MAXIMUM_SERVICE_ERRORS
             then Inr (st1\<lparr> datastore_updates :=
                               datastore_updates st1 @ [SetEnabled service_name False],
                             error_count := (error_count st1)(service_name := None) \<rparr>)
             else Inr st1)"

text \<open>
  A series of reports for one service at the given times. A report that raises has changed
  nothing, and the next report starts from the same state.
\<close>

fun report_each :: "real list \<Rightarrow> string \<Rightarrow> error_tracker \<Rightarrow> error_tracker" where
  "report_each [] service_name st = st"
| "report_each (t # ts) service_name st =
     (case handle_service_error t service_name st of
        Inl e \<Rightarrow> report_each ts service_name st
      | Inr st' \<Rightarrow> report_each ts service_name st')"

section \<open>The controller\<close>

text \<open>
  Calls that change the orchestrator, as the scaler issues them.
\<close>

datatype ctl_call =
    PrepareNetwork string bool
  | StartStatefulContainer string string
  | StopContainers string
  | SetTarget string int
  | AddProfile string
  | Restart string

text \<open>
  Modelled from the spec: the \<^verbatim>\<open>Controller\<close> driver (\<^verbatim>\<open>assemblyline_core.scaler.controllers\<close>
  is not part of the sources at hand). The specification gives \<^verbatim>\<open>get_target(name) -> int\<close>
  and \<^verbatim>\<open>set_target(name, int)\<close> as the persistent replica intent of a service, and
  \<^verbatim>\<open>free_cpu() -> float\<close>, \<^verbatim>\<open>free_memory()\<close> as the budget left in the cluster. A write of
  a target is read back by \<open>get_target\<close>; the free resources are whatever the driver
  reports, and the model does not tie them to the targets.
\<close>

record controller =
  get_target :: "string \<Rightarrow> int"
  free_cpu :: real
  free_memory :: real

definition set_target :: "string \<Rightarrow> int \<Rightarrow> controller \<Rightarrow> controller" where
  "set_target n v c = c\<lparr> get_target := (get_target c)(n := v) \<rparr>"

text \<open>
  The effect on the targets of a batch of calls handed to \<^verbatim>\<open>Pool\<close>, taken in the order of
  submission; only \<open>SetTarget\<close> is submitted by the allocator.
\<close>

fun run_call :: "ctl_call \<Rightarrow> controller \<Rightarrow> controller" where
  "run_call (SetTarget n v) c = set_target n v c"
| "run_call _ c = c"

fun run_pool :: "ctl_call list \<Rightarrow> controller \<Rightarrow> controller" where
  "run_pool [] c = c"
| "run_pool (w # ws) c = run_pool ws (run_call w c)"

section \<open>The allocator: update\_scaling\<close>

text \<open>
  One pass of the body of \<^verbatim>\<open>update_scaling\<close>. The dictionary \<^verbatim>\<open>self.profiles\<close> is the list
  of its values in insertion order; every profile is stored under its own name
  (\<^verbatim>\<open>add_service\<close> is the only writer), so the names in the list are distinct. The local
  dictionary \<^verbatim>\<open>targets\<close> is built from the same profiles and only read at their names; it
  is a function from names to integers.

  Phase 1: a service whose target is above \<^verbatim>\<open>desired_instances\<close> is lowered to it.
\<close>

fun phase1 :: "profile list \<Rightarrow> (string \<Rightarrow> int) \<Rightarrow> (string \<Rightarrow> int) \<times> ctl_call list" where
  "phase1 [] targets = (targets, [])"
| "phase1 (p # ps) targets =
     (if targets (name p) > desired_instances p
      then (let (t, ws) = phase1 ps (targets(name p := desired_instances p))
            in (t, SetTarget (name p) (desired_instances p) # ws))
      else phase1 ps targets)"

text \<open>Phase 2: a service whose target is below \<^verbatim>\<open>min_instances\<close> is raised to it.\<close>

fun phase2 :: "profile list \<Rightarrow> (string \<Rightarrow> int) \<Rightarrow> (string \<Rightarrow> int) \<times> ctl_call list" where
  "phase2 [] targets = (targets, [])"
| "phase2 (p # ps) targets =
     (if targets (name p) < min_instances p
      then (let (t, ws) = phase2 ps (targets(name p := min_instances p))
            in (t, SetTarget (name p) (min_instances p) # ws))
      else phase2 ps targets)"

text \<open>
  The local function \<^verbatim>\<open>trim\<close>, closed over \<^verbatim>\<open>free_cpu\<close>, \<^verbatim>\<open>free_memory\<close> and
  \<^verbatim>\<open>targets\<close>; here they are arguments. (The list \<^verbatim>\<open>drop\<close> is only logged.)
\<close>

definition trim :: "real \<Rightarrow> real \<Rightarrow> (string \<Rightarrow> int) \<Rightarrow> profile list \<Rightarrow> profile list" where
  "trim fc fm targets prof =
     filter (\<lambda>p. cpu p \<le> fc \<and> real_of_int (ram p) \<le> fm)
       (filter (\<lambda>p. desired_instances p > targets (name p)) prof)"

text \<open>
  The \<^verbatim>\<open>while profiles:\<close> loop of phase 3. \<^verbatim>\<open>list.sort\<close> is stable, as \<open>sort_key\<close> is; the
  key is the target the controller reports. The statements \<^verbatim>\<open>free_memory -= ...\<close> and
  \<^verbatim>\<open>free_cpu -= ...\<close> subtract doubles, and the result is rounded to the nearest double:
  \<open>sub_mem\<close> and \<open>sub_cpu\<close> stand for these two subtractions (the comparisons of \<open>trim\<close>
  are exact). The result holds the free CPU and memory left, the targets, and the profiles
  that were granted a replica, in the order of the grants. The sorted list is empty exactly
  when the list is.
\<close>

function grow_with ::
  "(real \<Rightarrow> real \<Rightarrow> real) \<Rightarrow> (real \<Rightarrow> real \<Rightarrow> real) \<Rightarrow> (string \<Rightarrow> int) \<Rightarrow> real \<Rightarrow> real
     \<Rightarrow> (string \<Rightarrow> int) \<Rightarrow> profile list \<Rightarrow> real \<times> real \<times> (string \<Rightarrow> int) \<times> profile list" where
  "grow_with sub_cpu sub_mem reported fc fm targets profiles_in =
     (case sort_key (\<lambda>p. reported (name p)) profiles_in of
        [] \<Rightarrow> (fc, fm, targets, [])
      | p0 # rest \<Rightarrow>
          (let fm' = sub_mem fm (real_of_int (ram_mb (container_config p0)));
               fc' = sub_cpu fc (cpu_cores (container_config p0));
               targets' = targets(name p0 := targets (name p0) + 1);
               (fc_end, fm_end, targets_end, granted) =
                  grow_with sub_cpu sub_mem reported fc' fm' targets'
                    (trim fc' fm' targets' (p0 # rest))
           in (fc_end, fm_end, targets_end, p0 # granted)))"
  by pat_completeness auto

text \<open>
  The loop with exact subtraction, which the pass of the allocator below is built on.
\<close>

definition grow ::
  "(string \<Rightarrow> int) \<Rightarrow> real \<Rightarrow> real \<Rightarrow> (string \<Rightarrow> int) \<Rightarrow> profile list
     \<Rightarrow> real \<times> real \<times> (string \<Rightarrow> int) \<times> profile list" where
  "grow = grow_with (\<lambda>x y. x - y) (\<lambda>x y. x - y)"

text \<open>
  The value of the local variable \<^verbatim>\<open>free_cpu\<close> (or \<^verbatim>\<open>free_memory\<close>) after grants to the
  given profiles: the reading of the controller less what each of them needs, subtracted
  one after the other as the loop does.
\<close>

definition remaining ::
  "(real \<Rightarrow> real \<Rightarrow> real) \<Rightarrow> (profile \<Rightarrow> real) \<Rightarrow> real \<Rightarrow> profile list \<Rightarrow> real" where
  "remaining sub need free gs = foldl (\<lambda>left p. sub left (need p)) free gs"

text \<open>
  The measure of the loop: every profile of the working list counts one more than the
  replicas it still wants.
\<close>

definition wanted :: "(string \<Rightarrow> int) \<Rightarrow> profile \<Rightarrow> nat" where
  "wanted targets p = Suc (nat (desired_instances p - targets (name p)))"

text \<open>
  The last block of the pass: for every key of \<^verbatim>\<open>targets\<close>, a write when the value differs
  from what the controller reports.
\<close>

fun apply_targets :: "(string \<Rightarrow> int) \<Rightarrow> (string \<Rightarrow> int) \<Rightarrow> string list \<Rightarrow> ctl_call list" where
  "apply_targets reported targets [] = []"
| "apply_targets reported targets (n # ns) =
     (if targets n \<noteq> reported n
      then SetTarget n (targets n) # apply_targets reported targets ns
      else apply_targets reported targets ns)"

text \<open>
  What one pass leaves behind: the controller, the \<^verbatim>\<open>set_target\<close> calls issued, in order,
  the profiles granted a replica in phase 3, and the values of the local variables
  \<^verbatim>\<open>free_cpu\<close> and \<^verbatim>\<open>free_memory\<close> when the loop ended.
\<close>

record pass_result =
  controller_after :: controller
  writes :: "ctl_call list"
  grants :: "profile list"
  cpu_left :: real
  memory_left :: real

text \<open>
  The body of the \<^verbatim>\<open>while\<close> loop of \<^verbatim>\<open>update_scaling\<close>. The calls of phases 1 and 2 go to
  the same \<^verbatim>\<open>with pool:\<close> block and have finished when phase 3 reads the controller.
\<close>

definition update_scaling :: "controller \<Rightarrow> profile list \<Rightarrow> pass_result" where
  "update_scaling c ps =
     (let targets0 = get_target c;
          (targets1, w1) = phase1 ps targets0;
          (targets2, w2) = phase2 ps targets1;
          c1 = run_pool (w1 @ w2) c;
          fc = free_cpu c1;
          fm = free_memory c1;
          (fc_end, fm_end, targets3, granted) =
             grow (get_target c1) fc fm targets2 (trim fc fm targets2 ps);
          w3 = apply_targets (get_target c1) targets3 (map name ps)
      in \<lparr> controller_after = run_pool w3 c1,
           writes = w1 @ w2 @ w3,
           grants = granted,
           cpu_left = fc_end,
           memory_left = fm_end \<rparr>)"

section \<open>The synchronizer: sync\_services\<close>

datatype service_stage = Off | Update | Running

text \<open>
  A \<^verbatim>\<open>Service\<close> of the catalog, with what \<^verbatim>\<open>sync_services\<close> reads from it. The field
  \<open>svc_docker_config\<close> is the docker configuration after the image variables and the
  default environment have been put in; \<open>svc_config_hash\<close> is the hash computed from
  \<^verbatim>\<open>service.config\<close> and \<^verbatim>\<open>service.submission_params\<close>; \<open>wait_for_update\<close> is
  \<^verbatim>\<open>service.update_config and service.update_config.wait_for_update\<close>.
\<close>

record service =
  svc_name :: string
  enabled :: bool
  licence_count :: int
  svc_timeout :: int
  allow_internet_access :: bool
  dependencies :: "string list"
  wait_for_update :: bool
  svc_docker_config :: docker_config
  svc_config_hash :: int

text \<open>\<^verbatim>\<open>config.core.scaler.service_defaults\<close>.\<close>

record service_defaults =
  default_min_instances :: int
  default_growth :: real
  default_shrink :: "real option"
  default_backlog :: int

text \<open>
  The state shared by \<^verbatim>\<open>sync_services\<close>, \<^verbatim>\<open>add_service\<close> and \<^verbatim>\<open>stop_service\<close>: the
  dictionary of profiles (in insertion order), the controller, the stage of every service
  and the calls made to the controller. Calls to the controller are taken to succeed, so
  the \<^verbatim>\<open>except\<close> branch of the loop body is not entered.

  Modelled from the spec: \<^verbatim>\<open>get_service_stage\<close> and \<^verbatim>\<open>_service_stage_hash\<close> belong to
  \<^verbatim>\<open>CoreBase\<close> (\<^verbatim>\<open>assemblyline_core.server_base\<close>), which is not part of the sources at
  hand. The specification gives a stage hash with get and set over the stages
  \<^verbatim>\<open>Off\<close>, \<^verbatim>\<open>Update\<close>, \<^verbatim>\<open>Running\<close>: the field \<open>stages\<close> is that hash, read by
  application and written by function update.
\<close>

record scaler =
  profiles :: "profile list"
  ctl :: controller
  stages :: "string \<Rightarrow> service_stage"
  calls :: "ctl_call list"

definition has_profile :: "string \<Rightarrow> profile list \<Rightarrow> bool" where
  "has_profile n ps = (n \<in> set (map name ps))"

text \<open>\<^verbatim>\<open>self.profiles[profile.name] = profile\<close>.\<close>

definition store_profile :: "profile \<Rightarrow> profile list \<Rightarrow> profile list" where
  "store_profile p ps =
     (if has_profile (name p) ps
      then map (\<lambda>q. if name q = name p then p else q) ps
      else ps @ [p])"

text \<open>\<^verbatim>\<open>self.profiles.pop(name, None)\<close>.\<close>

definition pop_profile :: "string \<Rightarrow> profile list \<Rightarrow> profile list" where
  "pop_profile n ps = filter (\<lambda>q. name q \<noteq> n) ps"

definition add_service :: "real \<Rightarrow> profile \<Rightarrow> scaler \<Rightarrow> scaler" where
  "add_service now p st =
     (let d = max (get_target (ctl st) (name p)) (min_instances p);
          p' = p\<lparr> desired_instances := d, running_instances := d, last_update := now \<rparr>
      in st\<lparr> profiles := store_profile p' (profiles st),
             calls := calls st @ [AddProfile (name p')] \<rparr>)"

definition stop_service :: "string \<Rightarrow> service_stage \<Rightarrow> scaler \<Rightarrow> scaler" where
  "stop_service n current_stage st =
     (let st1 = (if current_stage \<noteq> Off
                 then st\<lparr> calls := calls st @ [StopContainers n],
                          stages := (stages st)(n := Off) \<rparr>
                 else st)
      in if has_profile n (profiles st1) \<or> get_target (ctl st1) n > 0
         then st1\<lparr> calls := calls st1 @ [SetTarget n 0],
                    ctl := set_target n 0 (ctl st1),
                    profiles := pop_profile n (profiles st1) \<rparr>
         else st1)"

text \<open>
  The branch of the loop body for an enabled service in stage \<^verbatim>\<open>Off\<close>: the network, the
  dependencies, the next stage.
\<close>

definition start_dependencies :: "service \<Rightarrow> scaler \<Rightarrow> scaler" where
  "start_dependencies svc st =
     st\<lparr> calls := calls st
             @ [PrepareNetwork (svc_name svc) (allow_internet_access svc)]
             @ map (StartStatefulContainer (svc_name svc)) (dependencies svc),
         stages := (stages st)(svc_name svc :=
                      (if wait_for_update svc then Update else Running)) \<rparr>"

text \<open>
  The branch for an enabled service in stage \<^verbatim>\<open>Running\<close>: a new profile, or the refresh
  of the one that is there.
\<close>

definition refresh_profile :: "service \<Rightarrow> profile \<Rightarrow> profile" where
  "refresh_profile svc p =
     (let p1 = (if container_config p \<noteq> svc_docker_config svc \<or> config_hash p \<noteq> svc_config_hash svc
                then p\<lparr> container_config := svc_docker_config svc,
                        config_hash := svc_config_hash svc \<rparr>
                else p)
      in p1\<lparr> u_max_instances :=
               (if licence_count svc = 0 then Unbounded else Cap (licence_count svc)) \<rparr>)"

definition scale_service :: "real \<Rightarrow> service_defaults \<Rightarrow> service \<Rightarrow> scaler \<Rightarrow> scaler" where
  "scale_service now defaults svc st =
     (case find (\<lambda>q. name q = svc_name svc) (profiles st) of
        None \<Rightarrow>
          add_service now
            (ServiceProfile (svc_name svc) (svc_docker_config svc) (svc_config_hash svc)
               (default_min_instances defaults) (Some (licence_count svc))
               (default_growth defaults) (default_shrink defaults) (default_backlog defaults)
               (Some (svc_name svc)) (svc_timeout svc + 30))
            st
      | Some p \<Rightarrow>
          st\<lparr> profiles := map (\<lambda>q. if name q = svc_name svc then refresh_profile svc q else q)
                             (profiles st),
              calls := calls st
                @ (if container_config p \<noteq> svc_docker_config svc \<or> config_hash p \<noteq> svc_config_hash svc
                   then [Restart (svc_name svc)] else []) \<rparr>)"

text \<open>
  The \<^verbatim>\<open>for stray_service in current_services - set(discovered_services)\<close> loop. The
  iteration order of a Python set is not fixed; the order of \<open>current_services\<close> is taken.
\<close>

fun remove_strays :: "string list \<Rightarrow> string list \<Rightarrow> scaler \<Rightarrow> scaler" where
  "remove_strays [] discovered st = st"
| "remove_strays (n # ns) discovered st =
     (if n \<in> set discovered then remove_strays ns discovered st
      else remove_strays ns discovered (stop_service n (stages st n) st))"

text \<open>
  The body of \<^verbatim>\<open>for service in self.datastore.list_all_services(full=True)\<close>, on the state
  and the list \<^verbatim>\<open>discovered_services\<close>. The stage is read once, at the top. For a
  disabled service \<^verbatim>\<open>continue\<close> leaves the body after \<^verbatim>\<open>stop_service\<close>; otherwise the body
  ends with the loop over the strays, which the source has inside the \<^verbatim>\<open>for\<close> loop.
\<close>

definition sync_service ::
  "real \<Rightarrow> service_defaults \<Rightarrow> string list \<Rightarrow> service \<Rightarrow> scaler \<times> string list
     \<Rightarrow> scaler \<times> string list" where
  "sync_service now defaults current_services svc acc =
     (let (st, discovered) = acc;
          stage = stages st (svc_name svc);
          discovered' = discovered @ [svc_name svc];
          st1 = (if enabled svc \<and> stage = Off then start_dependencies svc st else st)
      in if \<not> enabled svc then (stop_service (svc_name svc) stage st1, discovered')
         else
           let st2 = (if enabled svc \<and> stage = Running
                      then scale_service now defaults svc st1 else st1)
           in (remove_strays current_services discovered' st2, discovered'))"

text \<open>One cycle of \<^verbatim>\<open>sync_services\<close>: the snapshot of the profile names, then the loop.\<close>

definition sync_services :: "real \<Rightarrow> service_defaults \<Rightarrow> service list \<Rightarrow> scaler \<Rightarrow> scaler" where
  "sync_services now defaults catalog st =
     fst (foldl (\<lambda>acc svc. sync_service now defaults (map name (profiles st)) svc acc)
            (st, []) catalog)"

section \<open>The metric ingestor: sync\_metrics\<close>

datatype metric_event = SyntheticUpdate update_call | LogZeroInstances string int

text \<open>
  The first half of the per-profile block of \<^verbatim>\<open>sync_metrics\<close>: when the aggregator has a
  reading (\<^verbatim>\<open>instances\<close>, \<^verbatim>\<open>duty_cycle\<close>) for the profile, \<^verbatim>\<open>update\<close> is called with the
  time since the last update and the length of the queue. \<open>queue_len\<close> gives the length
  of a queue by name; a profile without a queue has \<^verbatim>\<open>None\<close> there, and
  \<^verbatim>\<open>None.length()\<close> raises \<^verbatim>\<open>AttributeError\<close>.
\<close>

definition heartbeat_update ::
  "real \<Rightarrow> (string \<Rightarrow> (int \<times> real) option) \<Rightarrow> (string \<Rightarrow> int) \<Rightarrow> profile \<Rightarrow> error + profile" where
  "heartbeat_update now reading queue_len p =
     (case reading (name p) of
        None \<Rightarrow> Inr p
      | Some (instances, duty) \<Rightarrow>
          (case queue p of
             None \<Rightarrow> Inl AttributeError
           | Some q \<Rightarrow> update now (now - last_update p) instances (queue_len q) duty p))"

text \<open>
  The second half: the check for a service at zero instances. The test
  \<^verbatim>\<open>profile.queue\<close> holds when the profile has a queue object. The log line is under
  \<^verbatim>\<open>if queue_length > 0\<close>; the call of \<^verbatim>\<open>update\<close> is not.
\<close>

definition zero_instance_update ::
  "real \<Rightarrow> real \<Rightarrow> (string \<Rightarrow> int) \<Rightarrow> (string \<Rightarrow> int) \<Rightarrow> profile
     \<Rightarrow> error + profile \<times> metric_event list" where
  "zero_instance_update now export_interval reported queue_len p =
     (case queue p of
        None \<Rightarrow> Inr (p, [])
      | Some q \<Rightarrow>
          if reported (name p) = 0 \<and> desired_instances p = 0
          then
            let ql = queue_len q;
                logged = (if ql > 0 then [LogZeroInstances (name p) ql] else []);
                c = \<lparr> at_time = now, call_delta = export_interval, call_instances = 0,
                      call_backlog = ql, call_duty_cycle = target_duty_cycle p \<rparr>
            in (case apply_update c p of
                  Inl e \<Rightarrow> Inl e
                | Inr p' \<Rightarrow> Inr (p', logged @ [SyntheticUpdate c]))
          else Inr (p, []))"

definition sync_metrics_profile ::
  "real \<Rightarrow> real \<Rightarrow> (string \<Rightarrow> (int \<times> real) option) \<Rightarrow> (string \<Rightarrow> int) \<Rightarrow> (string \<Rightarrow> int)
     \<Rightarrow> profile \<Rightarrow> error + profile \<times> metric_event list" where
  "sync_metrics_profile now export_interval reading reported queue_len p =
     (case heartbeat_update now reading queue_len p of
        Inl e \<Rightarrow> Inl e
      | Inr p1 \<Rightarrow> zero_instance_update now export_interval reported queue_len p1)"

section \<open>The timeout reaper: process\_timeouts\<close>

text \<open>
  Values passed in a Python call, and a call as written at the call site: the positional
  arguments and the keyword arguments.
\<close>

datatype pyval = Str string | Tuple "pyval list" | Callable string

record py_call =
  positional_args :: "pyval list"
  keyword_args :: "(string \<times> pyval) list"

text \<open>
  What \<^verbatim>\<open>Executor.submit\<close> does with a call: it raises, or it schedules a call of a
  function with positional and keyword arguments.
\<close>

datatype submitted = Raised error | Scheduled string "pyval list" "(string \<times> pyval) list"

text \<open>
  \<^verbatim>\<open>concurrent.futures.Executor.submit\<close>. From Python 3.9 its signature is
  \<^verbatim>\<open>submit(self, fn, /, *args, **kwargs)\<close>: \<^verbatim>\<open>fn\<close> is positional only, so a call without a
  positional argument raises \<^verbatim>\<open>TypeError\<close>. Before that, \<^verbatim>\<open>fn\<close> could be given by
  keyword; the other keywords are passed on to \<^verbatim>\<open>fn\<close>. The flag says which of the two
  signatures is in force. The scheduled call is \<^verbatim>\<open>fn(*args, **kwargs)\<close>.
\<close>

definition executor_submit :: "bool \<Rightarrow> py_call \<Rightarrow> submitted" where
  "executor_submit fn_positional_only c =
     (case positional_args c of
        Callable f # args \<Rightarrow> Scheduled f args (keyword_args c)
      | _ # args \<Rightarrow> Raised TypeError
      | [] \<Rightarrow>
          if fn_positional_only then Raised TypeError
          else (case map_of (keyword_args c) ''fn'' of
                  Some (Callable f) \<Rightarrow>
                    Scheduled f [] (filter (\<lambda>kv. fst kv \<noteq> ''fn'') (keyword_args c))
                | _ \<Rightarrow> Raised TypeError))"

record timeout_message =
  msg_service :: string
  msg_container :: string

text \<open>
  The call site in \<^verbatim>\<open>process_timeouts\<close>:
  \<^verbatim>\<open>pool.submit(fn=self.controller.stop_container, args=(message['service'], message['container']))\<close>.
\<close>

definition submit_stop :: "timeout_message \<Rightarrow> py_call" where
  "submit_stop message =
     \<lparr> positional_args = [],
       keyword_args = [(''fn'', Callable ''stop_container''),
                   (''args'', Tuple [Str (msg_service message), Str (msg_container message)])] \<rparr>"

text \<open>
  One turn of the loop after the futures have been looked at: nothing is submitted when
  the pop timed out (\<^verbatim>\<open>if not message: continue\<close>).
\<close>

definition process_timeouts :: "bool \<Rightarrow> timeout_message option \<Rightarrow> submitted option" where
  "process_timeouts fn_positional_only popped =
     (case popped of
        None \<Rightarrow> None
      | Some message \<Rightarrow> Some (executor_submit fn_positional_only (submit_stop message)))"

section \<open>Predicates and sample inputs used in the statements\<close>

text \<open>
  The configuration of a profile that \<open>update\<close> never writes: \<open>kept p p'\<close> says that
  \<open>p'\<close> has it as \<open>p\<close> does.
\<close>

definition kept :: "profile \<Rightarrow> profile \<Rightarrow> bool" where
  "kept p p' \<longleftrightarrow> leak_rate p' = leak_rate p \<and> target_duty_cycle p' = target_duty_cycle p
     \<and> backlog p' = backlog p \<and> growth_threshold p' = growth_threshold p
     \<and> shrink_threshold p' = shrink_threshold p \<and> u_min_instances p' = u_min_instances p
     \<and> u_max_instances p' = u_max_instances p \<and> name p' = name p \<and> queue p' = queue p
     \<and> container_config p' = container_config p"

text \<open>
  The bounds on \<^verbatim>\<open>desired_instances\<close>, for a profile whose minimum is not above its
  maximum.
\<close>

definition bounds_ok :: "profile \<Rightarrow> bool" where
  "bounds_ok p \<longleftrightarrow> (min_instances p \<le> max_instances p \<longrightarrow>
            min_instances p \<le> desired_instances p \<and> desired_instances p \<le> max_instances p)"

text \<open>
  A service with one core and 1024 MB, and its profile as \<^verbatim>\<open>sync_services\<close> builds it
  with the default growth 600, backlog 500 and the given \<^verbatim>\<open>min_instances\<close>.
\<close>

definition example_config :: docker_config where
  "example_config = \<lparr> cpu_cores = 1, ram_mb = 1024, image_ref = ''example/service:latest'' \<rparr>"

definition example_profile :: "int \<Rightarrow> profile" where
  "example_profile floor_arg =
     ServiceProfile ''svc'' example_config 0 floor_arg None 600 None 500 (Some ''svc'') 30"

text \<open>A call of \<open>update\<close> at time 0.\<close>

definition sample :: "real \<Rightarrow> int \<Rightarrow> int \<Rightarrow> real \<Rightarrow> update_call" where
  "sample delta instances backlog_in duty_in =
     \<lparr> at_time = 0, call_delta = delta, call_instances = instances,
       call_backlog = backlog_in, call_duty_cycle = duty_in \<rparr>"



text \<open>A profile built with a backlog reference of 0.\<close>

definition unreferenced_profile :: profile where
  "unreferenced_profile = ServiceProfile ''svc'' example_config 0 0 None 600 None 0 (Some ''svc'') 30"


text \<open>
  The sample profile wanting two instances, and a controller with no targets set that
  reports one and a half free cores and 8192 MB.
\<close>

definition wanting_profile :: profile where
  "wanting_profile = (example_profile 0)\<lparr> desired_instances := 2 \<rparr>"

definition small_cluster :: controller where
  "small_cluster = \<lparr> get_target = (\<lambda>n. 0), free_cpu = 3 / 2, free_memory = 8192 \<rparr>"

text \<open>A controller that reports a negative amount of free CPU.\<close>

definition overdrawn_cluster :: controller where
  "overdrawn_cluster = \<lparr> get_target = (\<lambda>n. 0), free_cpu = - 1, free_memory = 8192 \<rparr>"


text \<open>
  An enabled service of the catalog with the sample configuration, the defaults of the
  scaler, a scaler without profiles in which every service is in stage \<^verbatim>\<open>Running\<close>, and
  that scaler after one cycle of \<open>sync_services\<close> over a catalog of two services.
\<close>

definition example_service :: "string \<Rightarrow> service" where
  "example_service n =
     \<lparr> svc_name = n, enabled = True, licence_count = 0, svc_timeout = 60,
       allow_internet_access = False, dependencies = [], wait_for_update = False,
       svc_docker_config = example_config, svc_config_hash = 0 \<rparr>"

definition example_defaults :: service_defaults where
  "example_defaults =
     \<lparr> default_min_instances = 0, default_growth = 600, default_shrink = None,
       default_backlog = 500 \<rparr>"

definition fresh_scaler :: scaler where
  "fresh_scaler =
     \<lparr> profiles = [], ctl = small_cluster, stages = (\<lambda>n. Running), calls = [] \<rparr>"

definition synced_scaler :: scaler where
  "synced_scaler =
     sync_services 0 example_defaults [example_service ''alpha'', example_service ''beta''] fresh_scaler"

section \<open>Termination of the growth loop\<close>

lemma sum_list_insort_key:
  "sum_list (map f (insort_key k x xs)) = (f x :: nat) + sum_list (map f xs)"
  by (induction xs) auto

lemma sum_list_sort_key:
  "sum_list (map f (sort_key k xs)) = sum_list (map (f :: 'a \<Rightarrow> nat) xs)"
  by (induction xs) (auto simp: sum_list_insort_key)

lemma sum_list_filter_le:
  assumes "\<And>p. P p \<Longrightarrow> g' p \<le> (g p :: nat)"
  shows "sum_list (map g' (filter P xs)) \<le> sum_list (map g xs)"
  using assms by (induction xs) (auto simp: add_mono trans_le_add2)

lemma sum_list_filter_less:
  assumes "\<And>p. P p \<Longrightarrow> g' p \<le> (g p :: nat)" and "P x \<Longrightarrow> g' x < g x" and "0 < g x"
  shows "sum_list (map g' (filter P (x # xs))) < sum_list (map g (x # xs))"
  using sum_list_filter_le[of P g' g xs, OF assms(1)] assms(2,3)
  by (cases "P x") (auto simp: add_less_le_mono trans_less_add1)

lemma trim_as_filter:
  "trim fc fm targets xs =
     filter (\<lambda>p. desired_instances p > targets (name p) \<and> cpu p \<le> fc \<and> real_of_int (ram p) \<le> fm) xs"
  by (simp add: trim_def conj_commute conj_left_commute cong: conj_cong)

lemma grow_measure_decreases:
  assumes "sort_key k profs = p0 # rest"
  shows "sum_list (map (wanted (targets(name p0 := targets (name p0) + 1)))
            (trim fc fm (targets(name p0 := targets (name p0) + 1)) (p0 # rest)))
         < sum_list (map (wanted targets) profs)"
proof -
  let ?tg = "targets(name p0 := targets (name p0) + 1)"
  let ?P = "\<lambda>p. desired_instances p > ?tg (name p) \<and> cpu p \<le> fc \<and> real_of_int (ram p) \<le> fm"
  have "sum_list (map (wanted ?tg) (filter ?P (p0 # rest)))
          < sum_list (map (wanted targets) (p0 # rest))"
  proof (rule sum_list_filter_less)
    show "?P p \<Longrightarrow> wanted ?tg p \<le> wanted targets p" for p
      by (auto simp: wanted_def)
    show "?P p0 \<Longrightarrow> wanted ?tg p0 < wanted targets p0"
      by (auto simp: wanted_def)
    show "0 < wanted targets p0"
      by (simp add: wanted_def)
  qed
  moreover have "sum_list (map (wanted targets) (p0 # rest)) = sum_list (map (wanted targets) profs)"
    using sum_list_sort_key[of "wanted targets" k profs] assms by simp
  ultimately show ?thesis
    by (simp only: trim_as_filter)
qed

termination grow_with
  apply (relation "measure (\<lambda>(sc, sm, r, fc, fm, tg, ps). sum_list (map (wanted tg) ps))")
   apply simp
  apply (simp only: in_measure prod.case)
  apply (erule grow_measure_decreases)
  done

declare grow_with.simps [simp del]

section \<open>Properties of update\<close>

text \<open>
  The equations that evaluate \<open>update\<close> and the sample inputs on concrete arguments.
\<close>

lemmas update_unfold =
  apply_update_def update_def observe_def backlog_pressure_def true_divide_def math_sqrt_def
  double_overflow_def double_underflow_def duty_pressure_def
  leak_pressure_def floor_pressure_def grow_step_def shrink_step_def copysign_def
  max_instances_def Let_def

lemmas example_unfold = example_profile_def example_config_def ServiceProfile_def sample_def

text \<open>
  What the constructor fixes: the duty-cycle target, the leak rate and the signs of the
  thresholds. \<open>update\<close> writes none of them (\<open>update_kept\<close> below).
\<close>

lemma constructed_settings:
  "target_duty_cycle (ServiceProfile nm cc chash min_arg max_arg growth shrink backlog_arg q shutdown) = 9 / 10
   \<and> leak_rate (ServiceProfile nm cc chash min_arg max_arg growth shrink backlog_arg q shutdown) = 1 / 10
   \<and> 0 \<le> growth_threshold (ServiceProfile nm cc chash min_arg max_arg growth shrink backlog_arg q shutdown)
   \<and> shrink_threshold (ServiceProfile nm cc chash min_arg max_arg growth shrink backlog_arg q shutdown) \<le> 0
   \<and> backlog (ServiceProfile nm cc chash min_arg max_arg growth shrink backlog_arg q shutdown) = backlog_arg"
  by (cases shrink) (simp_all add: ServiceProfile_def)


lemma kept_trans: "kept p q \<Longrightarrow> kept q r \<Longrightarrow> kept p r" by (simp add: kept_def)

lemma observe_kept: "kept p (observe now i b d p)"
  by (simp add: kept_def observe_def Let_def)

lemma backlog_pressure_kept: "backlog_pressure delta b p = Inr p' \<Longrightarrow> kept p p'"
  by (auto simp: kept_def backlog_pressure_def split: sum.splits)






text \<open>A call of \<open>update\<close> that returns went through every block.\<close>

lemma update_Inr:
  assumes "update now delta i b d p = Inr p'"
  obtains s4 s5 where "backlog_pressure delta b (observe now i b d p) = Inr s4"
    and "duty_pressure delta d s4 = Inr s5"
    and "p' = shrink_step (grow_step (floor_pressure (leak_pressure delta s5)))"
  using assms by (auto simp: update_def split: sum.splits)


text \<open>
  The bounds on \<^verbatim>\<open>desired_instances\<close>: set by the clamp of the first block, untouched by
  the pressure blocks, kept by the growth and the shrink step.
\<close>

lemma observe_bounds: "bounds_ok (observe now i b d p)"
  by (auto simp: bounds_ok_def observe_def Let_def max_instances_def split: cap.splits)

lemma backlog_pressure_same:
  "backlog_pressure delta b p = Inr p' \<Longrightarrow>
     min_instances p' = min_instances p \<and> desired_instances p' = desired_instances p
     \<and> max_instances p' = max_instances p"
  by (auto simp: backlog_pressure_def max_instances_def split: sum.splits cap.splits)

lemma duty_pressure_same:
  "duty_pressure delta d p = Inr p' \<Longrightarrow>
     min_instances p' = min_instances p \<and> desired_instances p' = desired_instances p
     \<and> max_instances p' = max_instances p"
  by (auto simp: duty_pressure_def max_instances_def split: if_splits cap.splits)

lemma leak_pressure_same:
  "min_instances (leak_pressure delta p) = min_instances p
   \<and> desired_instances (leak_pressure delta p) = desired_instances p
   \<and> max_instances (leak_pressure delta p) = max_instances p"
  by (simp add: leak_pressure_def Let_def max_instances_def split: cap.splits)

lemma floor_pressure_same:
  "min_instances (floor_pressure p) = min_instances p
   \<and> desired_instances (floor_pressure p) = desired_instances p
   \<and> max_instances (floor_pressure p) = max_instances p"
  by (simp add: floor_pressure_def max_instances_def split: cap.splits)

lemma floor_pressure_nonneg:
  "desired_instances (floor_pressure p) = min_instances (floor_pressure p) \<longrightarrow> 0 \<le> pressure (floor_pressure p)"
  by (simp add: floor_pressure_def)

lemma grow_step_inv:
  assumes "bounds_ok p" and "desired_instances p = min_instances p \<longrightarrow> 0 \<le> pressure p"
  shows "bounds_ok (grow_step p) \<and> (desired_instances (grow_step p) = min_instances (grow_step p) \<longrightarrow> 0 \<le> pressure (grow_step p))"
  using assms by (auto simp: bounds_ok_def grow_step_def max_instances_def split: cap.splits)

lemma shrink_step_inv:
  assumes "bounds_ok p" and "desired_instances p = min_instances p \<longrightarrow> 0 \<le> pressure p"
  shows "bounds_ok (shrink_step p) \<and> (desired_instances (shrink_step p) = min_instances (shrink_step p) \<longrightarrow> 0 \<le> pressure (shrink_step p))"
  using assms by (auto simp: bounds_ok_def shrink_step_def max_instances_def split: cap.splits)

lemma update_inv:
  assumes "update now delta i b d p = Inr p'"
  shows "bounds_ok p' \<and> (desired_instances p' = min_instances p' \<longrightarrow> 0 \<le> pressure p')"
proof -
  from assms obtain s4 s5 where a: "backlog_pressure delta b (observe now i b d p) = Inr s4"
    and b: "duty_pressure delta d s4 = Inr s5"
    and c: "p' = shrink_step (grow_step (floor_pressure (leak_pressure delta s5)))"
    by (rule update_Inr)
  have "bounds_ok s5"
    using observe_bounds[of now i b d p] backlog_pressure_same[OF a] duty_pressure_same[OF b]
    by (simp add: bounds_ok_def)
  then have "bounds_ok (floor_pressure (leak_pressure delta s5))"
    using leak_pressure_same[of delta s5] floor_pressure_same[of "leak_pressure delta s5"]
    by (simp add: bounds_ok_def)
  from grow_step_inv[OF this floor_pressure_nonneg]
  show ?thesis unfolding c using shrink_step_inv by blast
qed









text \<open>When \<open>update\<close> raises, and when it returns.\<close>

lemma double_bounds: "0 < double_overflow" "0 < double_underflow"
  by (simp_all add: double_overflow_def double_underflow_def)

lemma backlog_pressure_raises:
  assumes "backlog_pressure delta b p = Inl e"
  shows "(backlog p = 0 \<and> e = ZeroDivisionError)
       \<or> (backlog p \<noteq> 0 \<and> double_overflow \<le> abs (real_of_int b / real_of_int (backlog p))
            \<and> e = OverflowError)
       \<or> (backlog p \<noteq> 0 \<and> real_of_int b / real_of_int (backlog p) < - double_underflow
            \<and> e = ValueError)"
proof (cases "true_divide b (backlog p)")
  case (Inl e')
  with assms have "e' = e" by (simp add: backlog_pressure_def)
  with Inl show ?thesis by (auto simp: true_divide_def split: if_splits)
next
  case (Inr q)
  with assms have m: "math_sqrt q = Inl e"
    by (auto simp: backlog_pressure_def split: sum.splits)
  then have q: "q < 0" and e: "e = ValueError"
    by (auto simp: math_sqrt_def split: if_splits)
  from Inr q have "backlog p \<noteq> 0 \<and> real_of_int b / real_of_int (backlog p) < - double_underflow"
    by (auto simp: true_divide_def split: if_splits)
  with e show ?thesis by simp
qed

lemma update_raises:
  assumes "update now delta i b d p = Inl e"
  shows "backlog p = 0 \<or> double_overflow \<le> abs (real_of_int b / real_of_int (backlog p))
       \<or> real_of_int b / real_of_int (backlog p) < - double_underflow
       \<or> target_duty_cycle p = 0"
proof (cases "backlog_pressure delta b (observe now i b d p)")
  case (Inl e')
  have "backlog (observe now i b d p) = backlog p"
    using observe_kept[of p now i b d] by (simp add: kept_def)
  with backlog_pressure_raises[OF Inl] show ?thesis by metis
next
  case (Inr s4)
  have k4: "kept p s4"
    using kept_trans[OF observe_kept backlog_pressure_kept[OF Inr]] .
  from assms Inr have "duty_pressure delta d s4 = Inl e"
    by (auto simp: update_def split: sum.splits)
  then have "target_duty_cycle s4 = 0"
    by (auto simp: duty_pressure_def split: if_splits)
  with k4 show ?thesis by (simp add: kept_def)
qed

lemma update_total:
  assumes "backlog p \<noteq> 0"
    and "abs (real_of_int b / real_of_int (backlog p)) < double_overflow"
    and "\<not> real_of_int b / real_of_int (backlog p) < - double_underflow"
    and "target_duty_cycle p \<noteq> 0"
  shows "\<exists>p'. update now delta i b d p = Inr p'"
proof (cases "update now delta i b d p")
  case (Inl e)
  from update_raises[OF this] assms show ?thesis by linarith
next
  case (Inr p')
  then show ?thesis by blast
qed

lemma update_zero_reference:
  "backlog p = 0 \<Longrightarrow> update now delta i b d p = Inl ZeroDivisionError"
  by (simp add: update_def backlog_pressure_def true_divide_def observe_def Let_def)

lemma update_overflow:
  assumes "backlog p \<noteq> 0" and "double_overflow \<le> abs (real_of_int b / real_of_int (backlog p))"
  shows "update now delta i b d p = Inl OverflowError"
proof -
  have "backlog (observe now i b d p) = backlog p"
    using observe_kept[of p now i b d] by (simp add: kept_def)
  with assms have "backlog_pressure delta b (observe now i b d p) = Inl OverflowError"
    by (simp add: backlog_pressure_def true_divide_def)
  then show ?thesis by (simp add: update_def)
qed



lemma updates_inv:
  assumes "updates cs p = Inr p'" and "cs \<noteq> []"
  shows "bounds_ok p' \<and> (desired_instances p' = min_instances p' \<longrightarrow> 0 \<le> pressure p')"
  using assms
proof (induction cs arbitrary: p)
  case Nil
  then show ?case by simp
next
  case (Cons c cs)
  from Cons.prems(1) obtain p1 where a1: "apply_update c p = Inr p1" and r: "updates cs p1 = Inr p'"
    by (auto split: sum.splits)
  show ?case
  proof (cases "cs = []")
    case True
    with r have "p' = p1" by simp
    with a1 update_inv show ?thesis by (simp add: apply_update_def)
  next
    case False
    with Cons.IH[OF r] show ?thesis by simp
  qed
qed

text \<open>
  Claim C1, as the code has it. After every call of a sequence of \<open>update\<close> calls that
  returns, \<^verbatim>\<open>desired_instances == min_instances\<close> implies \<^verbatim>\<open>pressure >= 0\<close>; and when the
  bounds of the call are consistent, that is \<^verbatim>\<open>min_instances <= max_instances\<close> with
  \<^verbatim>\<open>max_instances\<close> derived from the running instances, then
  \<^verbatim>\<open>min_instances <= desired_instances <= max_instances\<close>. No condition on the arguments
  of the calls is needed.
\<close>

theorem update_bounds:
  assumes "updates cs p = Inr p'" and "cs \<noteq> []"
  shows "(desired_instances p' = min_instances p' \<longrightarrow> 0 \<le> pressure p')
       \<and> (min_instances p' \<le> max_instances p' \<longrightarrow>
            min_instances p' \<le> desired_instances p' \<and> desired_instances p' \<le> max_instances p')"
  using updates_inv[OF assms] by (simp add: bounds_ok_def)

theorem update_bounds_witness:
  "updates [sample 1 0 0 0] (example_profile 0)
      = Inr (projr (updates [sample 1 0 0 0] (example_profile 0)))
   \<and> [sample 1 0 0 0] \<noteq> []
   \<and> min_instances (projr (updates [sample 1 0 0 0] (example_profile 0)))
        \<le> max_instances (projr (updates [sample 1 0 0 0] (example_profile 0)))
   \<and> min_instances (projr (updates [sample 1 0 0 0] (example_profile 0)))
        \<le> desired_instances (projr (updates [sample 1 0 0 0] (example_profile 0)))
   \<and> desired_instances (projr (updates [sample 1 0 0 0] (example_profile 0)))
        \<le> max_instances (projr (updates [sample 1 0 0 0] (example_profile 0)))
   \<and> desired_instances (projr (updates [sample 1 0 0 0] (example_profile 0)))
        = min_instances (projr (updates [sample 1 0 0 0] (example_profile 0)))
   \<and> 0 \<le> pressure (projr (updates [sample 1 0 0 0] (example_profile 0)))"
proof -
  have h: "updates [sample 1 0 0 0] (example_profile 0)
      = Inr (projr (updates [sample 1 0 0 0] (example_profile 0)))"
    by (simp add: update_unfold example_unfold)
  have n: "[sample 1 0 0 0] \<noteq> []" by simp
  have m: "min_instances (projr (updates [sample 1 0 0 0] (example_profile 0)))
        \<le> max_instances (projr (updates [sample 1 0 0 0] (example_profile 0)))"
    by (simp add: update_unfold example_unfold)
  have e: "desired_instances (projr (updates [sample 1 0 0 0] (example_profile 0)))
        = min_instances (projr (updates [sample 1 0 0 0] (example_profile 0)))"
    by (simp add: update_unfold example_unfold)
  show ?thesis using update_bounds[OF h n] h m e by blast
qed

text \<open>
  The bound by \<^verbatim>\<open>max_instances\<close> does not hold after every call: a profile with a minimum
  of 3 and no instance running has a derived maximum of 2, and the clamp
  \<^verbatim>\<open>max(self.min_instances, min(self.max_instances, ...))\<close> lets the minimum win.
\<close>

theorem desired_above_maximum:
  "\<not> isl (updates [sample 1 0 0 0] (example_profile 3))
   \<and> max_instances (projr (updates [sample 1 0 0 0] (example_profile 3)))
       < desired_instances (projr (updates [sample 1 0 0 0] (example_profile 3)))"
  by (simp add: update_unfold example_unfold)




text \<open>
  Claim C10, as the code has it. With a backlog reference of 0 every call of \<open>update\<close>
  raises \<^verbatim>\<open>ZeroDivisionError\<close>. With a positive reference, a backlog that is not negative
  and a quotient of the two within the range of a double, the call returns a profile (for
  the duty-cycle target of the constructor, that is any target but 0, and any float delta).
  With a positive reference and a quotient beyond the range of a double the call raises
  \<^verbatim>\<open>OverflowError\<close>.
\<close>

theorem backlog_reference_division:
  "(backlog p = 0 \<longrightarrow> update now delta instances b d p = Inl ZeroDivisionError)
   \<and> (0 < backlog p \<and> 0 \<le> b \<and> real_of_int b / real_of_int (backlog p) < double_overflow
        \<and> target_duty_cycle p \<noteq> 0
        \<longrightarrow> (\<exists>p'. update now delta instances b d p = Inr p'))
   \<and> (0 < backlog p \<and> double_overflow \<le> real_of_int b / real_of_int (backlog p)
        \<longrightarrow> update now delta instances b d p = Inl OverflowError)"
proof (intro conjI impI)
  assume "backlog p = 0"
  then show "update now delta instances b d p = Inl ZeroDivisionError"
    by (rule update_zero_reference)
next
  assume a: "0 < backlog p \<and> 0 \<le> b \<and> real_of_int b / real_of_int (backlog p) < double_overflow
        \<and> target_duty_cycle p \<noteq> 0"
  then have q: "0 \<le> real_of_int b / real_of_int (backlog p)" by simp
  then have 1: "abs (real_of_int b / real_of_int (backlog p)) < double_overflow"
    using a by linarith
  have 2: "\<not> real_of_int b / real_of_int (backlog p) < - double_underflow"
    using q double_bounds(2) by linarith
  from a have 0: "backlog p \<noteq> 0" and 3: "target_duty_cycle p \<noteq> 0" by simp_all
  show "\<exists>p'. update now delta instances b d p = Inr p'"
    by (rule update_total[OF 0 1 2 3])
next
  assume a: "0 < backlog p \<and> double_overflow \<le> real_of_int b / real_of_int (backlog p)"
  then have 0: "backlog p \<noteq> 0"
    and 1: "double_overflow \<le> abs (real_of_int b / real_of_int (backlog p))"
    by linarith+
  show "update now delta instances b d p = Inl OverflowError"
    by (rule update_overflow[OF 0 1])
qed

theorem backlog_reference_division_witness:
  "backlog unreferenced_profile = 0
   \<and> update 0 1 0 10 0 unreferenced_profile = Inl ZeroDivisionError
   \<and> 0 < backlog (example_profile 0) \<and> (0::int) \<le> 10
   \<and> real_of_int 10 / real_of_int (backlog (example_profile 0)) < double_overflow
   \<and> target_duty_cycle (example_profile 0) \<noteq> 0
   \<and> (\<exists>p'. update 0 1 0 10 0 (example_profile 0) = Inr p')
   \<and> double_overflow \<le> real_of_int (10 ^ 311) / real_of_int (backlog (example_profile 0))
   \<and> update 0 1 0 (10 ^ 311) 0 (example_profile 0) = Inl OverflowError"
proof -
  have a: "backlog unreferenced_profile = 0"
    by (simp add: unreferenced_profile_def ServiceProfile_def)
  have b: "0 < backlog (example_profile 0) \<and> (0::int) \<le> 10
      \<and> real_of_int 10 / real_of_int (backlog (example_profile 0)) < double_overflow
      \<and> target_duty_cycle (example_profile 0) \<noteq> 0"
    by (simp add: example_unfold double_overflow_def)
  have o: "double_overflow \<le> real_of_int (10 ^ 311) / real_of_int (backlog (example_profile 0))"
    by (simp add: example_unfold double_overflow_def)
  from backlog_reference_division[of unreferenced_profile 0 1 0 10 0] a
  have c: "update 0 1 0 10 0 unreferenced_profile = Inl ZeroDivisionError" by blast
  from backlog_reference_division[of "example_profile 0" 0 1 0 10 0] b
  have d: "\<exists>p'. update 0 1 0 10 0 (example_profile 0) = Inr p'" by blast
  from backlog_reference_division[of "example_profile 0" 0 1 0 "10 ^ 311" 0] b o
  have e: "update 0 1 0 (10 ^ 311) 0 (example_profile 0) = Inl OverflowError" by blast
  from a b c d o e show ?thesis by blast
qed

text \<open>
  The call does not return for every backlog that is not negative: with the default
  reference of 500 and a backlog of \<open>10 ^ 311\<close> the quotient is beyond the largest double
  and the division raises \<^verbatim>\<open>OverflowError\<close>.
\<close>

theorem huge_backlog_overflows:
  "0 < backlog (example_profile 0) \<and> (0::int) \<le> 10 ^ 311 \<and> (0::real) \<le> 1
   \<and> update 0 1 0 (10 ^ 311) 0 (example_profile 0) = Inl OverflowError"
  by (simp add: update_unfold example_unfold)

section \<open>Properties of the allocator\<close>

text \<open>The equations that evaluate a pass of the allocator on concrete arguments.\<close>

lemmas scaling_unfold =
  update_scaling_def trim_def grow_def grow_with.simps cpu_def ram_def set_target_def Let_def

text \<open>
  The loop of phase 3, one turn at a time, and a proof rule for it: a property that holds
  for the empty list and is carried over one grant holds of every run of the loop.
\<close>

lemma sort_key_Nil_iff: "sort_key k xs = [] \<longleftrightarrow> xs = []"
  by (metis length_sort list.size(3) length_0_conv)

lemma grow_with_Nil: "grow_with sc sm rep fc fm tg [] = (fc, fm, tg, [])"
  by (subst grow_with.simps) simp

lemma grow_with_Cons:
  assumes "sort_key (\<lambda>p. rep (name p)) ps = p0 # rest"
  shows "grow_with sc sm rep fc fm tg ps =
     (case grow_with sc sm rep (sc fc (cpu p0)) (sm fm (real_of_int (ram p0)))
             (tg(name p0 := tg (name p0) + 1))
             (trim (sc fc (cpu p0)) (sm fm (real_of_int (ram p0)))
                (tg(name p0 := tg (name p0) + 1)) (p0 # rest))
      of (a, b, c, g) \<Rightarrow> (a, b, c, p0 # g))"
  by (subst grow_with.simps) (simp add: assms Let_def cpu_def ram_def)

lemma grow_with_rule:
  assumes base: "\<And>fc fm tg. P fc fm tg [] (fc, fm, tg, [])"
    and step: "\<And>rep fc fm tg ps p0 rest a b c g.
        sort_key (\<lambda>p. rep (name p)) ps = p0 # rest \<Longrightarrow>
        grow_with sc sm rep (sc fc (cpu p0)) (sm fm (real_of_int (ram p0)))
             (tg(name p0 := tg (name p0) + 1))
             (trim (sc fc (cpu p0)) (sm fm (real_of_int (ram p0)))
                (tg(name p0 := tg (name p0) + 1)) (p0 # rest))
          = (a, b, c, g) \<Longrightarrow>
        P (sc fc (cpu p0)) (sm fm (real_of_int (ram p0))) (tg(name p0 := tg (name p0) + 1))
             (trim (sc fc (cpu p0)) (sm fm (real_of_int (ram p0)))
                (tg(name p0 := tg (name p0) + 1)) (p0 # rest))
             (a, b, c, g) \<Longrightarrow>
        P fc fm tg ps (a, b, c, p0 # g)"
  shows "P fc fm tg ps (grow_with sc sm rep fc fm tg ps)"
  using assms
proof (induction sc sm rep fc fm tg ps rule: grow_with.induct)
  case (1 sub_cpu sub_mem reported fc fm targets profiles_in)
  show ?case
  proof (cases "sort_key (\<lambda>p. reported (name p)) profiles_in")
    case Nil
    then have "profiles_in = []" by (simp add: sort_key_Nil_iff)
    then show ?thesis by (simp add: grow_with_Nil "1.prems"(1))
  next
    case (Cons p0 rest)
    let ?fc = "sub_cpu fc (cpu p0)" and ?fm = "sub_mem fm (real_of_int (ram p0))"
    let ?tg = "targets(name p0 := targets (name p0) + 1)"
    obtain a b c g where
      r: "grow_with sub_cpu sub_mem reported ?fc ?fm ?tg (trim ?fc ?fm ?tg (p0 # rest)) = (a, b, c, g)"
      by (metis prod_cases4)
    have "P (sub_cpu fc (cpu_cores (container_config p0)))
            (sub_mem fm (real_of_int (ram_mb (container_config p0)))) ?tg
            (trim (sub_cpu fc (cpu_cores (container_config p0)))
               (sub_mem fm (real_of_int (ram_mb (container_config p0)))) ?tg (p0 # rest))
            (grow_with sub_cpu sub_mem reported (sub_cpu fc (cpu_cores (container_config p0)))
               (sub_mem fm (real_of_int (ram_mb (container_config p0)))) ?tg
               (trim (sub_cpu fc (cpu_cores (container_config p0)))
                  (sub_mem fm (real_of_int (ram_mb (container_config p0)))) ?tg (p0 # rest)))"
      by (rule "1.IH"[OF Cons refl refl refl]) (rule "1.prems"(1), rule "1.prems"(2))
    then have ih: "P ?fc ?fm ?tg (trim ?fc ?fm ?tg (p0 # rest)) (a, b, c, g)"
      using r by (simp only: cpu_def ram_def)
    have "grow_with sub_cpu sub_mem reported fc fm targets profiles_in = (a, b, c, p0 # g)"
      by (simp add: grow_with_Cons[OF Cons] r)
    with "1.prems"(2)[OF Cons r ih] show ?thesis by simp
  qed
qed



text \<open>What the loop grants: the accounts, and that every grant fits what is left.\<close>

lemma in_trim:
  "p \<in> set (trim fc fm tg xs) \<longleftrightarrow>
     p \<in> set xs \<and> tg (name p) < desired_instances p \<and> cpu p \<le> fc \<and> real_of_int (ram p) \<le> fm"
  by (auto simp: trim_as_filter)

lemma sorted_head:
  assumes "sort_key k ps = p0 # rest"
  shows "p0 \<in> set ps" and "set (p0 # rest) = set ps"
proof -
  have "set (sort_key k ps) = set ps" by simp
  with assms show "set (p0 # rest) = set ps" by simp
  then show "p0 \<in> set ps" by auto
qed


lemma remaining_Nil: "remaining sub need free [] = free"
  by (simp add: remaining_def)

lemma remaining_Cons: "remaining sub need free (p # gs) = remaining sub need (sub free (need p)) gs"
  by (simp add: remaining_def)

lemma remaining_exact:
  "remaining (\<lambda>x y. x - y) need free gs = free - sum_list (map need gs)"
  by (induction gs arbitrary: free) (simp_all add: remaining_Nil remaining_Cons)

text \<open>
  The loop with any subtraction that does not take a difference of \<open>y \<le> x\<close> below zero,
  as neither the exact nor the rounded subtraction does.
\<close>

lemma grow_with_fits:
  assumes sc: "\<forall>x y. y \<le> x \<longrightarrow> 0 \<le> sc x y" and sm: "\<forall>x y. y \<le> x \<longrightarrow> 0 \<le> sm x y"
  shows "(\<forall>p \<in> set ps. cpu p \<le> fc \<and> real_of_int (ram p) \<le> fm) \<longrightarrow>
   (case grow_with sc sm rep fc fm tg ps of (a, b, c, g) \<Rightarrow>
      a = remaining sc cpu fc g \<and> b = remaining sm (\<lambda>p. real_of_int (ram p)) fm g
      \<and> (g \<noteq> [] \<longrightarrow> 0 \<le> a \<and> 0 \<le> b)
      \<and> (\<forall>k < length g. cpu (g ! k) \<le> remaining sc cpu fc (take k g)
              \<and> real_of_int (ram (g ! k)) \<le> remaining sm (\<lambda>p. real_of_int (ram p)) fm (take k g)))"
proof (rule grow_with_rule)
  fix fc fm :: real and tg :: "string \<Rightarrow> int"
  show "(\<forall>p \<in> set []. cpu p \<le> fc \<and> real_of_int (ram p) \<le> fm) \<longrightarrow>
   (case (fc, fm, tg, []) of (a, b, c, g) \<Rightarrow>
      a = remaining sc cpu fc g \<and> b = remaining sm (\<lambda>p. real_of_int (ram p)) fm g
      \<and> (g \<noteq> [] \<longrightarrow> 0 \<le> a \<and> 0 \<le> b)
      \<and> (\<forall>k < length g. cpu (g ! k) \<le> remaining sc cpu fc (take k g)
              \<and> real_of_int (ram (g ! k)) \<le> remaining sm (\<lambda>p. real_of_int (ram p)) fm (take k g)))"
    by (simp add: remaining_Nil)
next
  fix rep :: "string \<Rightarrow> int" and fc fm :: real and tg :: "string \<Rightarrow> int"
    and ps rest g :: "profile list" and p0 :: profile and a b :: real and c :: "string \<Rightarrow> int"
  let ?fc = "sc fc (cpu p0)" and ?fm = "sm fm (real_of_int (ram p0))"
  let ?tg = "tg(name p0 := tg (name p0) + 1)"
  let ?need = "\<lambda>p. real_of_int (ram p)"
  assume s: "sort_key (\<lambda>p. rep (name p)) ps = p0 # rest"
    and ih: "(\<forall>p \<in> set (trim ?fc ?fm ?tg (p0 # rest)). cpu p \<le> ?fc \<and> real_of_int (ram p) \<le> ?fm) \<longrightarrow>
      (case (a, b, c, g) of (a, b, c, g) \<Rightarrow>
        a = remaining sc cpu ?fc g \<and> b = remaining sm ?need ?fm g
        \<and> (g \<noteq> [] \<longrightarrow> 0 \<le> a \<and> 0 \<le> b)
        \<and> (\<forall>k < length g. cpu (g ! k) \<le> remaining sc cpu ?fc (take k g)
              \<and> real_of_int (ram (g ! k)) \<le> remaining sm ?need ?fm (take k g)))"
  show "(\<forall>p \<in> set ps. cpu p \<le> fc \<and> real_of_int (ram p) \<le> fm) \<longrightarrow>
   (case (a, b, c, p0 # g) of (a, b, c, g) \<Rightarrow>
      a = remaining sc cpu fc g \<and> b = remaining sm ?need fm g
      \<and> (g \<noteq> [] \<longrightarrow> 0 \<le> a \<and> 0 \<le> b)
      \<and> (\<forall>k < length g. cpu (g ! k) \<le> remaining sc cpu fc (take k g)
              \<and> real_of_int (ram (g ! k)) \<le> remaining sm ?need fm (take k g)))"
  proof
    assume fit: "\<forall>p \<in> set ps. cpu p \<le> fc \<and> real_of_int (ram p) \<le> fm"
    have p0: "cpu p0 \<le> fc" "real_of_int (ram p0) \<le> fm"
      using fit sorted_head(1)[OF s] by auto
    have n0: "0 \<le> ?fc" "0 \<le> ?fm"
      using p0 sc sm by blast+
    have fit': "\<forall>p \<in> set (trim ?fc ?fm ?tg (p0 # rest)). cpu p \<le> ?fc \<and> real_of_int (ram p) \<le> ?fm"
    proof
      fix p assume "p \<in> set (trim ?fc ?fm ?tg (p0 # rest))"
      then show "cpu p \<le> ?fc \<and> real_of_int (ram p) \<le> ?fm" by (simp only: in_trim)
    qed
    let ?all = "a = remaining sc cpu ?fc g \<and> b = remaining sm ?need ?fm g
        \<and> (g \<noteq> [] \<longrightarrow> 0 \<le> a \<and> 0 \<le> b)
        \<and> (\<forall>k < length g. cpu (g ! k) \<le> remaining sc cpu ?fc (take k g)
              \<and> real_of_int (ram (g ! k)) \<le> remaining sm ?need ?fm (take k g))"
    have ih': "(\<forall>p \<in> set (trim ?fc ?fm ?tg (p0 # rest)). cpu p \<le> ?fc \<and> real_of_int (ram p) \<le> ?fm)
        \<longrightarrow> ?all"
      using ih unfolding prod.case .
    have all: ?all by (rule mp[OF ih' fit'])
    from all have acc: "a = remaining sc cpu ?fc g" "b = remaining sm ?need ?fm g"
      by blast+
    from all have i1: "g \<noteq> [] \<longrightarrow> 0 \<le> a \<and> 0 \<le> b"
      by blast
    from all have i2: "\<forall>k < length g. cpu (g ! k) \<le> remaining sc cpu ?fc (take k g)
              \<and> real_of_int (ram (g ! k)) \<le> remaining sm ?need ?fm (take k g)"
      by blast
    have n: "0 \<le> a \<and> 0 \<le> b"
    proof (cases "g = []")
      case True
      with acc n0 show ?thesis by (simp add: remaining_Nil)
    next
      case False
      with i1 show ?thesis by simp
    qed
    have "cpu ((p0 # g) ! k) \<le> remaining sc cpu fc (take k (p0 # g))
        \<and> real_of_int (ram ((p0 # g) ! k)) \<le> remaining sm ?need fm (take k (p0 # g))"
      if "k < length (p0 # g)" for k
    proof (cases k)
      case 0
      with p0 show ?thesis by (simp add: remaining_Nil)
    next
      case (Suc j)
      with that have "j < length g" by simp
      with i2 Suc show ?thesis by (simp add: remaining_Cons)
    qed
    with n acc show "case (a, b, c, p0 # g) of (a, b, c, g) \<Rightarrow>
      a = remaining sc cpu fc g \<and> b = remaining sm ?need fm g
      \<and> (g \<noteq> [] \<longrightarrow> 0 \<le> a \<and> 0 \<le> b)
      \<and> (\<forall>k < length g. cpu (g ! k) \<le> remaining sc cpu fc (take k g)
              \<and> real_of_int (ram (g ! k)) \<le> remaining sm ?need fm (take k g))"
      by (simp add: remaining_Cons)
  qed
qed

text \<open>Phases 1 and 2: what they do to the local targets and to the controller.\<close>

lemma phase2_mono: "phase2 ps tg = (tg', ws) \<Longrightarrow> tg n \<le> tg' n"
proof (induction ps arbitrary: tg tg' ws)
  case Nil then show ?case by simp
next
  case (Cons p ps)
  show ?case
  proof (cases "tg (name p) < min_instances p")
    case True
    obtain t w where r: "phase2 ps (tg(name p := min_instances p)) = (t, w)" by fastforce
    with Cons.prems True have "tg' = t" by simp
    moreover have "(tg(name p := min_instances p)) n \<le> t n" using Cons.IH[OF r] .
    ultimately show ?thesis using True by (auto split: if_splits)
  next
    case False
    with Cons show ?thesis by simp
  qed
qed

lemma phase2_other: "phase2 ps tg = (tg', ws) \<Longrightarrow> n \<notin> set (map name ps) \<Longrightarrow> tg' n = tg n"
proof (induction ps arbitrary: tg tg' ws)
  case Nil then show ?case by simp
next
  case (Cons p ps)
  show ?case
  proof (cases "tg (name p) < min_instances p")
    case True
    obtain t w where r: "phase2 ps (tg(name p := min_instances p)) = (t, w)" by fastforce
    with Cons.prems True have "tg' = t" by simp
    moreover have "t n = (tg(name p := min_instances p)) n" using Cons.IH[OF r] Cons.prems(2) by simp
    ultimately show ?thesis using Cons.prems(2) by auto
  next
    case False
    with Cons show ?thesis by simp
  qed
qed

lemma phase2_exact: "phase2 ps tg = (tg', ws) \<Longrightarrow> distinct (map name ps) \<Longrightarrow> p \<in> set ps
   \<Longrightarrow> tg' (name p) = max (tg (name p)) (min_instances p)"
proof (induction ps arbitrary: tg tg' ws)
  case Nil then show ?case by simp
next
  case (Cons q ps)
  from Cons.prems(2) have d: "distinct (map name ps)" and nq: "name q \<notin> set (map name ps)" by auto
  show ?case
  proof (cases "tg (name q) < min_instances q")
    case True
    obtain t w where r: "phase2 ps (tg(name q := min_instances q)) = (t, w)" by fastforce
    with Cons.prems True have e: "tg' = t" by simp
    show ?thesis
    proof (cases "p = q")
      case True
      have "t (name q) = (tg(name q := min_instances q)) (name q)" using phase2_other[OF r nq] .
      with e True \<open>tg (name q) < min_instances q\<close> show ?thesis by simp
    next
      case False
      with Cons.prems(3) have pin: "p \<in> set ps" by simp
      with nq have "name p \<noteq> name q" by (metis imageI set_map)
      with Cons.IH[OF r d pin] e show ?thesis by simp
    qed
  next
    case False
    then have r: "phase2 ps tg = (tg', ws)" using Cons.prems(1) by simp
    show ?thesis
    proof (cases "p = q")
      case True
      with phase2_other[OF r nq] False show ?thesis by simp
    next
      case False
      with Cons.prems(3) have pin: "p \<in> set ps" by simp
      with Cons.IH[OF r d pin] show ?thesis by simp
    qed
  qed
qed













lemma apply_targets_cong:
  "\<forall>n \<in> set ns. tg n = rep n \<Longrightarrow> apply_targets rep tg ns = []"
  by (induction ns) simp_all


lemma trim_cong:
  "\<forall>p \<in> set ps. tg (name p) = tg' (name p) \<Longrightarrow> trim fc fm tg ps = trim fc fm tg' ps"
  by (simp add: trim_as_filter cong: filter_cong)









text \<open>
  Claim C5, as the code has it. In phase 3, whether the subtractions are exact or rounded
  (any subtraction that does not take a difference of \<open>y \<le> x\<close> below zero), every grant
  goes to a profile whose cores and memory are at most (\<open>\<le>\<close>, the CPU a real number) the
  free CPU and memory remaining at that point, that is the reading of the controller less
  the needs of the profiles granted before, subtracted one after the other; the amounts
  left at the end are the readings less all the grants; and once a replica has been granted
  the remaining amounts are not negative.
\<close>

theorem growth_within_budget:
  assumes "\<forall>x y. y \<le> x \<longrightarrow> 0 \<le> sub_cpu x y" and "\<forall>x y. y \<le> x \<longrightarrow> 0 \<le> sub_mem x y"
  shows "case grow_with sub_cpu sub_mem reported fc fm targets (trim fc fm targets ps) of
           (fc_end, fm_end, targets_end, granted) \<Rightarrow>
             fc_end = remaining sub_cpu cpu fc granted
             \<and> fm_end = remaining sub_mem (\<lambda>p. real_of_int (ram p)) fm granted
             \<and> (granted \<noteq> [] \<longrightarrow> 0 \<le> fc_end \<and> 0 \<le> fm_end)
             \<and> (\<forall>k < length granted.
                   cpu (granted ! k) \<le> remaining sub_cpu cpu fc (take k granted)
                   \<and> real_of_int (ram (granted ! k))
                       \<le> remaining sub_mem (\<lambda>p. real_of_int (ram p)) fm (take k granted))"
proof -
  have fit: "\<forall>p \<in> set (trim fc fm targets ps). cpu p \<le> fc \<and> real_of_int (ram p) \<le> fm"
  proof
    fix p assume "p \<in> set (trim fc fm targets ps)"
    then show "cpu p \<le> fc \<and> real_of_int (ram p) \<le> fm" by (simp only: in_trim)
  qed
  show ?thesis
    by (rule mp[OF grow_with_fits[OF assms] fit])
qed

theorem growth_within_budget_witness:
  "grow_with (\<lambda>x y. x - y) (\<lambda>x y. x - y) (\<lambda>n. 0) (3 / 2) 8192 (\<lambda>n. 0)
      (trim (3 / 2) 8192 (\<lambda>n. 0) [wanting_profile])
     = (1 / 2, 7168, (\<lambda>n. 0)(''svc'' := 1), [wanting_profile])
   \<and> (1 / 2 :: real) = remaining (\<lambda>x y. x - y) cpu (3 / 2) [wanting_profile]
   \<and> (0 :: real) \<le> 1 / 2
   \<and> cpu wanting_profile \<le> remaining (\<lambda>x y. x - y) cpu (3 / 2) []"
proof -
  let ?r = "grow_with (\<lambda>x y. x - y) (\<lambda>x y. x - y) (\<lambda>n. 0) (3 / 2) 8192 (\<lambda>n. 0)
      (trim (3 / 2) 8192 (\<lambda>n. 0) [wanting_profile])"
  have e: "?r = (1 / 2, 7168, (\<lambda>n. 0)(''svc'' := 1), [wanting_profile])"
    by (simp add: grow_with.simps trim_def cpu_def ram_def wanting_profile_def example_unfold)
  have s: "\<forall>x y :: real. y \<le> x \<longrightarrow> 0 \<le> x - y" by simp
  note t = growth_within_budget[OF s s, where reported = "\<lambda>n. 0" and fc = "3 / 2" and fm = 8192
      and targets = "\<lambda>n. 0" and ps = "[wanting_profile]"]
  have t': "(1 / 2 :: real) = remaining (\<lambda>x y. x - y) cpu (3 / 2) [wanting_profile]
      \<and> (7168 :: real) = remaining (\<lambda>x y. x - y) (\<lambda>p. real_of_int (ram p)) 8192 [wanting_profile]
      \<and> ([wanting_profile] \<noteq> [] \<longrightarrow> (0 :: real) \<le> 1 / 2 \<and> (0 :: real) \<le> 7168)
      \<and> (\<forall>k < length [wanting_profile].
            cpu ([wanting_profile] ! k) \<le> remaining (\<lambda>x y. x - y) cpu (3 / 2) (take k [wanting_profile])
            \<and> real_of_int (ram ([wanting_profile] ! k))
                \<le> remaining (\<lambda>x y. x - y) (\<lambda>p. real_of_int (ram p)) 8192 (take k [wanting_profile]))"
    using t unfolding e prod.case .
  from t' have a: "(1 / 2 :: real) = remaining (\<lambda>x y. x - y) cpu (3 / 2) [wanting_profile]"
    by blast
  from t' have n: "(0 :: real) \<le> 1 / 2"
    by blast
  from t' have "\<forall>k < length [wanting_profile].
            cpu ([wanting_profile] ! k) \<le> remaining (\<lambda>x y. x - y) cpu (3 / 2) (take k [wanting_profile])"
    by blast
  then have "cpu ([wanting_profile] ! 0) \<le> remaining (\<lambda>x y. x - y) cpu (3 / 2) (take 0 [wanting_profile])"
    by simp
  then have c: "cpu wanting_profile \<le> remaining (\<lambda>x y. x - y) cpu (3 / 2) []"
    by simp
  from e a n c show ?thesis by blast
qed

text \<open>
  The sum of the grants is not always within the reading: when the controller reports a
  negative amount of free CPU nothing is granted, and the sum over no grant is 0.
\<close>

theorem nothing_granted_on_negative_budget:
  "grants (update_scaling overdrawn_cluster [wanting_profile]) = []
   \<and> free_cpu overdrawn_cluster
       < sum_list (map cpu (grants (update_scaling overdrawn_cluster [wanting_profile])))"
  by (simp add: scaling_unfold wanting_profile_def overdrawn_cluster_def example_unfold)




text \<open>
  Claim C7. Phase 2 lowers no entry of \<^verbatim>\<open>targets\<close>; with the names of the profiles
  distinct, as the keys of a dictionary are, the entry of every profile becomes the larger
  of its old value and \<^verbatim>\<open>min_instances\<close>: an entry below the minimum is raised to exactly
  the minimum, any other is left as it is.
\<close>

theorem phase2_never_reduces:
  assumes "phase2 ps targets = (targets', ws)"
  shows "(\<forall>n. targets n \<le> targets' n)
       \<and> (distinct (map name ps) \<longrightarrow>
            (\<forall>p \<in> set ps. targets' (name p) = max (targets (name p)) (min_instances p)))"
  using phase2_mono[OF assms] phase2_exact[OF assms] by blast

theorem phase2_never_reduces_witness:
  "phase2 [example_profile 2] (\<lambda>n. 0) = ((\<lambda>n. 0)(''svc'' := 2), [SetTarget ''svc'' 2])
   \<and> distinct (map name [example_profile 2])
   \<and> ((\<lambda>n. 0)(''svc'' := 2)) (name (example_profile 2))
        = max ((\<lambda>n. 0 :: int) (name (example_profile 2))) (min_instances (example_profile 2))"
proof -
  have h: "phase2 [example_profile 2] (\<lambda>n. 0) = ((\<lambda>n. 0)(''svc'' := 2), [SetTarget ''svc'' 2])"
    by (simp add: example_unfold)
  have d: "distinct (map name [example_profile 2])" by simp
  from phase2_never_reduces[OF h] d h show ?thesis by simp
qed

section \<open>Properties of the error window\<close>

text \<open>
  With an entry for the service in \<^verbatim>\<open>error_count\<close>, six reports within the expiry time
  send one update to the datastore, at the fifth report.
\<close>

lemma reports_with_known_key: "datastore_updates (report_each [0, 1, 2, 3, 4, 5] ''svc''
     (init_error_tracker\<lparr> error_count := [''svc'' \<mapsto> []] \<rparr>)) = [SetEnabled ''svc'' False]"
  by (simp add: handle_service_error_def init_error_tracker_def MAXIMUM_SERVICE_ERRORS_def ERROR_EXPIRY_TIME_def)

text \<open>
  Claim C2, on the code. For a service the tracker has never seen, the dictionary has no
  entry, and the first statement of \<^verbatim>\<open>handle_service_error\<close> raises \<^verbatim>\<open>KeyError\<close>: every
  report raises, the tracker stays as it was, and no update is sent to the datastore,
  however many reports are made.
\<close>

theorem first_report_raises:
  "handle_service_error t service_name init_error_tracker = Inl KeyError
   \<and> report_each ts service_name init_error_tracker = init_error_tracker
   \<and> datastore_updates (report_each ts service_name init_error_tracker) = []"
proof -
  have a: "handle_service_error t service_name init_error_tracker = Inl KeyError" for t
    by (simp add: handle_service_error_def init_error_tracker_def)
  have b: "report_each ts service_name init_error_tracker = init_error_tracker"
    by (induction ts) (simp_all add: a)
  have "datastore_updates init_error_tracker = []"
    by (simp add: init_error_tracker_def)
  with a b show ?thesis by simp
qed

section \<open>Properties of the timeout reaper\<close>

text \<open>
  Claim C4, on the code. For a popped message, \<^verbatim>\<open>pool.submit\<close> is called with the keyword
  arguments \<^verbatim>\<open>fn\<close> and \<^verbatim>\<open>args\<close>: where \<^verbatim>\<open>fn\<close> is positional only the call raises
  \<^verbatim>\<open>TypeError\<close> and nothing is scheduled; where \<^verbatim>\<open>fn\<close> may be a keyword, what is scheduled
  is \<^verbatim>\<open>stop_container(args=(service, container))\<close>, with no positional argument. In
  neither case is \<^verbatim>\<open>stop_container(service, container)\<close> scheduled.
\<close>

theorem stop_container_call_as_submitted:
  "process_timeouts True (Some message) = Some (Raised TypeError)
   \<and> process_timeouts False (Some message)
       = Some (Scheduled ''stop_container'' []
                 [(''args'', Tuple [Str (msg_service message), Str (msg_container message)])])"
  by (simp add: process_timeouts_def executor_submit_def submit_stop_def)

section \<open>Properties of the metric ingestor\<close>

lemma zero_instance_update_events:
  assumes "zero_instance_update now export_interval reported queue_len p = Inr (p', evs)"
  shows "((\<exists>c. SyntheticUpdate c \<in> set evs) \<longleftrightarrow>
            reported (name p) = 0 \<and> desired_instances p = 0 \<and> queue p \<noteq> None)
       \<and> (\<forall>c. SyntheticUpdate c \<in> set evs \<longrightarrow>
             (\<exists>q. queue p = Some q
                \<and> c = \<lparr> at_time = now, call_delta = export_interval, call_instances = 0,
                        call_backlog = queue_len q, call_duty_cycle = target_duty_cycle p \<rparr>))"
  using assms
  by (auto simp: zero_instance_update_def Let_def split: option.splits if_splits sum.splits)

text \<open>
  Claim C9, as the code has it. In the block of \<^verbatim>\<open>sync_metrics\<close> for a profile, when it
  returns, the synthetic call of \<open>update\<close> is made exactly when the controller target is 0,
  \<^verbatim>\<open>desired_instances\<close> is 0 after the update from the heartbeats (if there was one) and
  the profile has a queue, whether the queue is empty or not; its arguments are the export
  interval, 0 instances, the length of the queue and the duty-cycle target.
\<close>

theorem synthetic_update_condition:
  assumes "sync_metrics_profile now export_interval reading reported queue_len p = Inr (p', evs)"
  shows "\<exists>p1. heartbeat_update now reading queue_len p = Inr p1
       \<and> ((\<exists>c. SyntheticUpdate c \<in> set evs) \<longleftrightarrow>
            reported (name p1) = 0 \<and> desired_instances p1 = 0 \<and> queue p1 \<noteq> None)
       \<and> (\<forall>c. SyntheticUpdate c \<in> set evs \<longrightarrow>
             (\<exists>q. queue p1 = Some q
                \<and> c = \<lparr> at_time = now, call_delta = export_interval, call_instances = 0,
                        call_backlog = queue_len q, call_duty_cycle = target_duty_cycle p1 \<rparr>))"
proof -
  from assms obtain p1 where h: "heartbeat_update now reading queue_len p = Inr p1"
    and z: "zero_instance_update now export_interval reported queue_len p1 = Inr (p', evs)"
    by (auto simp: sync_metrics_profile_def split: sum.splits)
  from zero_instance_update_events[OF z] h show ?thesis by blast
qed

theorem synthetic_update_condition_witness:
  "sync_metrics_profile 0 60 (\<lambda>n. None) (\<lambda>n. 0) (\<lambda>n. 10) (example_profile 0)
     = Inr (fst (projr (sync_metrics_profile 0 60 (\<lambda>n. None) (\<lambda>n. 0) (\<lambda>n. 10) (example_profile 0))),
            [LogZeroInstances ''svc'' 10,
             SyntheticUpdate \<lparr> at_time = 0, call_delta = 60, call_instances = 0,
                               call_backlog = 10, call_duty_cycle = 9 / 10 \<rparr>])
   \<and> (\<exists>p1. heartbeat_update 0 (\<lambda>n. None) (\<lambda>n. 10) (example_profile 0) = Inr p1
          \<and> desired_instances p1 = 0 \<and> queue p1 \<noteq> None)"
proof -
  let ?c = "\<lparr> at_time = 0, call_delta = 60, call_instances = 0,
                               call_backlog = 10, call_duty_cycle = 9 / 10 \<rparr>"
  have h: "sync_metrics_profile 0 60 (\<lambda>n. None) (\<lambda>n. 0) (\<lambda>n. 10) (example_profile 0)
     = Inr (fst (projr (sync_metrics_profile 0 60 (\<lambda>n. None) (\<lambda>n. 0) (\<lambda>n. 10) (example_profile 0))),
            [LogZeroInstances ''svc'' 10, SyntheticUpdate ?c])"
    by (simp add: sync_metrics_profile_def heartbeat_update_def zero_instance_update_def
        update_unfold example_unfold)
  have m: "\<exists>c. SyntheticUpdate c \<in> set [LogZeroInstances ''svc'' 10, SyntheticUpdate ?c]"
    by auto
  from synthetic_update_condition[OF h] m
  have "\<exists>p1. heartbeat_update 0 (\<lambda>n. None) (\<lambda>n. 10) (example_profile 0) = Inr p1
          \<and> desired_instances p1 = 0 \<and> queue p1 \<noteq> None"
    by blast
  with h show ?thesis by blast
qed

text \<open>
  A profile whose queue is empty receives the synthetic update too, with a backlog of 0:
  only the log line is under \<^verbatim>\<open>if queue_length > 0\<close>.
\<close>

theorem synthetic_update_with_empty_queue:
  "\<not> isl (sync_metrics_profile 0 60 (\<lambda>n. None) (\<lambda>n. 0) (\<lambda>n. 0) (example_profile 0))
   \<and> snd (projr (sync_metrics_profile 0 60 (\<lambda>n. None) (\<lambda>n. 0) (\<lambda>n. 0) (example_profile 0)))
       = [SyntheticUpdate \<lparr> at_time = 0, call_delta = 60, call_instances = 0,
                            call_backlog = 0, call_duty_cycle = 9 / 10 \<rparr>]"
  by (simp add: sync_metrics_profile_def heartbeat_update_def zero_instance_update_def
        update_unfold example_unfold)

section \<open>Properties of the synchronizer\<close>

lemmas sync_unfold =
  sync_services_def sync_service_def scale_service_def add_service_def stop_service_def
  start_dependencies_def refresh_profile_def store_profile_def pop_profile_def has_profile_def
  set_target_def Let_def

lemma synced_profiles: "map name (profiles synced_scaler) = [''alpha'', ''beta'']
   \<and> calls synced_scaler = [AddProfile ''alpha'', AddProfile ''beta'']
   \<and> stages synced_scaler = (\<lambda>n. Running)"
  by (simp add: synced_scaler_def fresh_scaler_def example_service_def example_defaults_def
      small_cluster_def sync_unfold ServiceProfile_def example_config_def)

text \<open>
  Claim C3, on the code. The loop over the strays is part of the body of the loop over
  the catalog. With profiles for \<open>alpha\<close> and \<open>beta\<close> and a catalog listing both, the turn
  for \<open>alpha\<close> has only \<open>alpha\<close> in \<^verbatim>\<open>discovered_services\<close>: \<open>beta\<close> is taken for a
  stray, its target is set to 0 and its profile is dropped, and the cycle ends without a
  profile for \<open>beta\<close>. With an empty catalog the body never runs and no profile is stopped.
\<close>

theorem listed_service_stopped_as_stray:
  "map name (profiles synced_scaler) = [''alpha'', ''beta'']
   \<and> map name (profiles (fst (sync_service 1 example_defaults [''alpha'', ''beta'']
          (example_service ''alpha'') (synced_scaler, [])))) = [''alpha'']
   \<and> calls (fst (sync_service 1 example_defaults [''alpha'', ''beta'']
          (example_service ''alpha'') (synced_scaler, [])))
       = [AddProfile ''alpha'', AddProfile ''beta'', StopContainers ''beta'', SetTarget ''beta'' 0]
   \<and> map name (profiles (sync_services 1 example_defaults
          [example_service ''alpha'', example_service ''beta''] synced_scaler)) = [''alpha'']
   \<and> sync_services 1 example_defaults [] synced_scaler = synced_scaler"
  by (simp add: synced_scaler_def fresh_scaler_def example_service_def example_defaults_def
      small_cluster_def sync_unfold ServiceProfile_def example_config_def)

end
